theory Spec2Isabelle
  imports Complex_Main "HOL-Library.Sublist"
begin

section \<open>Errors\<close>

text \<open>
  Every exception the Python sources can raise is a value. The messages of the
  exceptions are left out; an \<open>IntegrityError\<close> keeps the constraint that failed.
  A Python \<open>str\<close> is a \<open>string\<close> whose elements stand for code points (those
  up to 255).
\<close>

datatype constraint = ForeignKey | PrimaryKey | Check | NotNull

datatype error =
    ValueError
  | TypeError
  | IntegrityError constraint
  | OperationalError
  | ZeroDivisionError
  | IndexError

section \<open>Python floats\<close>

text \<open>
  A finite Python \<open>float\<close> is modelled by the real number that is its value.
  \<open>fl x\<close> is the double nearest to the real \<open>x\<close>: 53 significant bits, ties to the
  even significand. It is what a decimal literal denotes and what \<open>/\<close> returns for the
  exact quotient. The exponent range is not bounded here, so overflow to infinity and
  subnormal results, and the floats \<open>inf\<close> and \<open>nan\<close>, are outside the model.
\<close>

definition pow2 :: "int \<Rightarrow> real" where
  "pow2 k = (if 0 \<le> k then 2 ^ nat k else 1 / 2 ^ nat (- k))"

definition round_half_even :: "real \<Rightarrow> int" where
  "round_half_even y =
     (let f = \<lfloor>y\<rfloor>; r = y - of_int f
      in if r < 1 / 2 then f
         else if r > 1 / 2 then f + 1
         else if even f then f else f + 1)"

definition fl :: "real \<Rightarrow> real" where
  "fl x =
     (if x = 0 then 0
      else
        let k = \<lfloor>log 2 \<bar>x\<bar>\<rfloor>;
            ulp = pow2 (k - 52)
        in of_int (round_half_even (x / ulp)) * ulp)"

section \<open>src/src/models.py\<close>

record PreferenceRow =
  prompt :: string
  chosen :: string
  rejected :: string
  row_id :: string

text \<open>\<open>__post_init__\<close>: \<open>not self.f\<close> holds of a \<open>str\<close> exactly when it is empty.\<close>

definition post_init :: "PreferenceRow \<Rightarrow> error + PreferenceRow" where
  "post_init self =
     (if row_id self = [] then Inl ValueError
      else if prompt self = [] then Inl ValueError
      else if chosen self = [] then Inl ValueError
      else if rejected self = [] then Inl ValueError
      else Inr self)"

text \<open>The dataclass constructor: the generated \<open>__init__\<close> stores the four arguments
  and then runs \<open>__post_init__\<close>.\<close>

definition new_PreferenceRow ::
  "string \<Rightarrow> string \<Rightarrow> string \<Rightarrow> string \<Rightarrow> error + PreferenceRow" where
  "new_PreferenceRow p c r i =
     post_init \<lparr>prompt = p, chosen = c, rejected = r, row_id = i\<rparr>"

section \<open>src/detectors/base.py\<close>

text \<open>\<open>severity\<close> is the value of the float passed; the literals \<open>0.90\<close>, \<open>0.70\<close>
  and \<open>0.50\<close> are the doubles \<open>fl 0.90\<close>, \<open>fl 0.70\<close> and \<open>fl 0.50\<close>, \<open>0.0\<close> and
  \<open>1.0\<close> are exact.\<close>

definition get_severity_level :: "real \<Rightarrow> error + string" where
  "get_severity_level severity =
     (if \<not> (0.0 \<le> severity \<and> severity \<le> 1.0) then Inl ValueError
      else if severity \<ge> fl 0.90 then Inr ''critical''
      else if severity \<ge> fl 0.70 then Inr ''high''
      else if severity \<ge> fl 0.50 then Inr ''medium''
      else Inr ''low'')"

section \<open>src/database.py\<close>

subsection \<open>The schema of \<open>SCHEMA_SQL\<close>\<close>

text \<open>
  One record per table, one field per column. A table that has not been created is
  \<open>None\<close>. \<open>detections_seq\<close> is the \<open>sqlite_sequence\<close> entry that
  \<open>AUTOINCREMENT\<close> keeps for \<open>detections\<close>: the largest \<open>detection_id\<close> ever
  assigned. \<open>CURRENT_TIMESTAMP\<close> is the clock reading \<open>now\<close> handed to each operation.
  Failures of the storage engine itself (disk, locking, exhausted row ids) are not
  modelled.
\<close>

record response_pair_row =
  pair_id :: string
  rp_chosen :: string
  rp_rejected :: string
  source_dataset :: string
  created_at :: nat

record detection_row =
  detection_id :: nat
  d_pair_id :: string
  signal_type :: string
  severity :: real
  metadata :: "string option"
  detected_at :: nat

record schema_version_row =
  version :: int
  applied_at :: nat

record database =
  response_pairs :: "response_pair_row list option"
  detections :: "detection_row list option"
  detections_seq :: nat
  schema_version :: "schema_version_row list option"
  indexes :: "string set"

definition CURRENT_SCHEMA_VERSION :: int where
  "CURRENT_SCHEMA_VERSION = 1"

text \<open>The database file before anything was created in it.\<close>

definition empty_db :: database where
  "empty_db = \<lparr>response_pairs = None, detections = None, detections_seq = 0,
                schema_version = None, indexes = {}\<rparr>"

text \<open>The names of the tables that exist.\<close>

definition tables :: "database \<Rightarrow> string set" where
  "tables db =
     (if response_pairs db = None then {} else {''response_pairs''})
   \<union> (if detections db = None then {} else {''detections''})
   \<union> (if schema_version db = None then {} else {''schema_version''})"

subsection \<open>Connections and transactions\<close>

text \<open>
  A connection is the committed database together with the working copy that the
  statements of the open transaction have changed. \<open>PRAGMA foreign_keys = ON\<close> is
  issued on every connection, so foreign keys are always enforced below.
\<close>

record connection =
  committed :: database
  working :: database

definition connect :: "database \<Rightarrow> connection" where
  "connect db = \<lparr>committed = db, working = db\<rparr>"

definition commit :: "connection \<Rightarrow> connection" where
  "commit conn = conn\<lparr>committed := working conn\<rparr>"

definition rollback :: "connection \<Rightarrow> connection" where
  "rollback conn = conn\<lparr>working := committed conn\<rparr>"

text \<open>
  \<open>get_db_connection\<close>: the body of the \<open>with\<close> block runs on a fresh connection;
  \<open>commit\<close> when it returns, \<open>rollback\<close> and re-raise when it raises. What is left
  after \<open>close\<close> is the committed database.
\<close>

definition get_db_connection ::
  "(connection \<Rightarrow> (error + 'a) \<times> connection) \<Rightarrow> database \<Rightarrow> (error + 'a) \<times> database" where
  "get_db_connection body db =
     (case body (connect db) of
        (Inr v, conn) \<Rightarrow> (Inr v, committed (commit conn))
      | (Inl e, conn) \<Rightarrow> (Inl e, committed (rollback conn)))"

subsection \<open>The SQL statements\<close>

text \<open>\<open>CREATE TABLE IF NOT EXISTS\<close>, one function per table.\<close>

definition create_response_pairs :: "database \<Rightarrow> database" where
  "create_response_pairs db =
     (if response_pairs db = None then db\<lparr>response_pairs := Some []\<rparr> else db)"

definition create_detections :: "database \<Rightarrow> database" where
  "create_detections db =
     (if detections db = None then db\<lparr>detections := Some [], detections_seq := 0\<rparr> else db)"

definition create_schema_version :: "database \<Rightarrow> database" where
  "create_schema_version db =
     (if schema_version db = None then db\<lparr>schema_version := Some []\<rparr> else db)"

text \<open>\<open>CREATE INDEX IF NOT EXISTS name ON detections(...)\<close>; the table exists when the
  script reaches these statements.\<close>

definition create_index :: "string \<Rightarrow> database \<Rightarrow> database" where
  "create_index name db = db\<lparr>indexes := insert name (indexes db)\<rparr>"

definition SCHEMA_SQL :: "database \<Rightarrow> database" where
  "SCHEMA_SQL db =
     create_index ''idx_detections_severity''
       (create_index ''idx_detections_signal_type''
         (create_index ''idx_detections_pair_id''
           (create_schema_version (create_detections (create_response_pairs db)))))"

text \<open>
  \<open>cursor.executescript\<close> first commits the open transaction and then runs the script
  outside any transaction, so each of its statements is committed at once.
\<close>

definition executescript :: "(database \<Rightarrow> database) \<Rightarrow> connection \<Rightarrow> connection" where
  "executescript script conn =
     (let db = script (working (commit conn)) in \<lparr>committed = db, working = db\<rparr>)"

text \<open>\<open>SELECT version FROM schema_version WHERE version = ?\<close> followed by
  \<open>fetchone()\<close>: the first matching row, or \<open>None\<close>.\<close>

definition select_version :: "int \<Rightarrow> connection \<Rightarrow> error + int option" where
  "select_version v conn =
     (case schema_version (working conn) of
        None \<Rightarrow> Inl OperationalError
      | Some rows \<Rightarrow> Inr (map_option version (find (\<lambda>r. version r = v) rows)))"

text \<open>\<open>INSERT INTO schema_version (version) VALUES (?)\<close>; \<open>version\<close> is the primary
  key.\<close>

definition insert_schema_version ::
  "nat \<Rightarrow> int \<Rightarrow> connection \<Rightarrow> (error + unit) \<times> connection" where
  "insert_schema_version now v conn =
     (case schema_version (working conn) of
        None \<Rightarrow> (Inl OperationalError, conn)
      | Some rows \<Rightarrow>
          if v \<in> version ` set rows then (Inl (IntegrityError PrimaryKey), conn)
          else (Inr (),
                conn\<lparr>working := (working conn)
                  \<lparr>schema_version := Some (rows @ [\<lparr>version = v, applied_at = now\<rparr>])\<rparr>\<rparr>))"

text \<open>\<open>INSERT INTO response_pairs (pair_id, chosen, rejected, source_dataset)\<close>;
  \<open>pair_id\<close> is the primary key.\<close>

definition sql_insert_response_pair ::
  "nat \<Rightarrow> string \<Rightarrow> string \<Rightarrow> string \<Rightarrow> string \<Rightarrow> connection \<Rightarrow> (error + unit) \<times> connection" where
  "sql_insert_response_pair now pid c r src conn =
     (case response_pairs (working conn) of
        None \<Rightarrow> (Inl OperationalError, conn)
      | Some rows \<Rightarrow>
          if pid \<in> pair_id ` set rows then (Inl (IntegrityError PrimaryKey), conn)
          else (Inr (),
                conn\<lparr>working := (working conn)
                  \<lparr>response_pairs := Some (rows @
                     [\<lparr>pair_id = pid, rp_chosen = c, rp_rejected = r,
                       source_dataset = src, created_at = now\<rparr>])\<rparr>\<rparr>))"

text \<open>
  \<open>INSERT INTO detections (pair_id, signal_type, severity, metadata)\<close>, returning
  \<open>cursor.lastrowid\<close>. The statement fails on the \<open>CHECK\<close> of \<open>severity\<close> and on the
  foreign key of \<open>pair_id\<close>; a failed statement changes nothing. The new
  \<open>detection_id\<close> is one more than the largest id ever used.
\<close>

definition sql_insert_detection ::
  "nat \<Rightarrow> string \<Rightarrow> string \<Rightarrow> real \<Rightarrow> string option \<Rightarrow> connection \<Rightarrow> (error + nat) \<times> connection" where
  "sql_insert_detection now pid sig sev mjson conn =
     (case detections (working conn) of
        None \<Rightarrow> (Inl OperationalError, conn)
      | Some rows \<Rightarrow>
          if \<not> (sev \<ge> 0.0 \<and> sev \<le> 1.0) then (Inl (IntegrityError Check), conn)
          else
            (case response_pairs (working conn) of
               None \<Rightarrow> (Inl OperationalError, conn)
             | Some pairs \<Rightarrow>
                 if pid \<notin> pair_id ` set pairs then (Inl (IntegrityError ForeignKey), conn)
                 else
                   (let i = Suc (fold max (map detection_id rows) (detections_seq (working conn)))
                    in (Inr i,
                        conn\<lparr>working := (working conn)
                          \<lparr>detections := Some (rows @
                             [\<lparr>detection_id = i, d_pair_id = pid, signal_type = sig,
                               severity = sev, metadata = mjson, detected_at = now\<rparr>]),
                           detections_seq := i\<rparr>\<rparr>))))"

text \<open>\<open>DELETE FROM detections\<close> and \<open>DELETE FROM response_pairs\<close>. Deleting a pair
  that a detection still references violates the foreign key.\<close>

definition delete_detections :: "connection \<Rightarrow> (error + unit) \<times> connection" where
  "delete_detections conn =
     (case detections (working conn) of
        None \<Rightarrow> (Inl OperationalError, conn)
      | Some rows \<Rightarrow> (Inr (), conn\<lparr>working := (working conn)\<lparr>detections := Some []\<rparr>\<rparr>))"

definition delete_response_pairs :: "connection \<Rightarrow> (error + unit) \<times> connection" where
  "delete_response_pairs conn =
     (case response_pairs (working conn) of
        None \<Rightarrow> (Inl OperationalError, conn)
      | Some pairs \<Rightarrow>
          (case detections (working conn) of
             None \<Rightarrow> (Inr (), conn\<lparr>working := (working conn)\<lparr>response_pairs := Some []\<rparr>\<rparr>)
           | Some rows \<Rightarrow>
               if \<exists>d \<in> set rows. d_pair_id d \<in> pair_id ` set pairs
               then (Inl (IntegrityError ForeignKey), conn)
               else (Inr (), conn\<lparr>working := (working conn)\<lparr>response_pairs := Some []\<rparr>\<rparr>)))"

subsection \<open>The operations\<close>

definition init_db :: "nat \<Rightarrow> database \<Rightarrow> (error + unit) \<times> database" where
  "init_db now =
     get_db_connection (\<lambda>conn0.
       let conn = executescript SCHEMA_SQL conn0 in
       case select_version CURRENT_SCHEMA_VERSION conn of
         Inl e \<Rightarrow> (Inl e, conn)
       | Inr None \<Rightarrow> insert_schema_version now CURRENT_SCHEMA_VERSION conn
       | Inr (Some v) \<Rightarrow> (Inr (), conn))"

definition insert_response_pair ::
  "nat \<Rightarrow> string \<Rightarrow> string \<Rightarrow> string \<Rightarrow> string \<Rightarrow> database \<Rightarrow> (error + unit) \<times> database" where
  "insert_response_pair now pid c r src =
     get_db_connection (sql_insert_response_pair now pid c r src)"

text \<open>
  \<open>metadata\<close> is \<open>None\<close> or a dict, here the list of its items; a dict is false in
  a condition exactly when it is empty. \<open>json.dumps\<close> is the parameter \<open>dumps\<close>: it
  returns the text or raises (\<open>TypeError\<close> for a value that JSON cannot hold,
  \<open>ValueError\<close> for a circular one). This is the expression
  \<open>json.dumps(metadata) if metadata else None\<close>.
\<close>

definition serialize_metadata ::
  "(('k \<times> 'v) list \<Rightarrow> error + string) \<Rightarrow> ('k \<times> 'v) list option \<Rightarrow> error + string option" where
  "serialize_metadata dumps md =
     (case md of
        None \<Rightarrow> Inr None
      | Some m \<Rightarrow>
          if m \<noteq> [] then (case dumps m of Inl e \<Rightarrow> Inl e | Inr j \<Rightarrow> Inr (Some j))
          else Inr None)"

text \<open>\<open>insert_detection\<close>: the range check, then the serialisation, then the
  \<open>INSERT\<close> inside the connection.\<close>

definition insert_detection ::
  "(('k \<times> 'v) list \<Rightarrow> error + string) \<Rightarrow> nat \<Rightarrow> string \<Rightarrow> string \<Rightarrow> real \<Rightarrow> ('k \<times> 'v) list option
     \<Rightarrow> database \<Rightarrow> (error + nat) \<times> database" where
  "insert_detection dumps now pid sig sev md db =
     (if \<not> (0.0 \<le> sev \<and> sev \<le> 1.0) then (Inl ValueError, db)
      else
        case serialize_metadata dumps md of
          Inl e \<Rightarrow> (Inl e, db)
        | Inr metadata_json \<Rightarrow>
            get_db_connection (sql_insert_detection now pid sig sev metadata_json) db)"

definition clear_all_data :: "database \<Rightarrow> (error + unit) \<times> database" where
  "clear_all_data =
     get_db_connection (\<lambda>conn0.
       case delete_detections conn0 of
         (Inl e, conn) \<Rightarrow> (Inl e, conn)
       | (Inr u, conn) \<Rightarrow> delete_response_pairs conn)"

text \<open>\<open>VACUUM\<close> rebuilds the file and leaves its content as it is.\<close>

definition vacuum_db :: "database \<Rightarrow> (error + unit) \<times> database" where
  "vacuum_db = get_db_connection (\<lambda>conn. (Inr (), conn))"

text \<open>The databases the operations can produce from the empty file.\<close>

inductive reachable :: "(('k \<times> 'v) list \<Rightarrow> error + string) \<Rightarrow> database \<Rightarrow> bool"
  for dumps :: "('k \<times> 'v) list \<Rightarrow> error + string" where
  r_empty: "reachable dumps empty_db"
| r_init: "reachable dumps db \<Longrightarrow> reachable dumps (snd (init_db now db))"
| r_pair: "reachable dumps db \<Longrightarrow> reachable dumps (snd (insert_response_pair now pid c r src db))"
| r_detection:
    "reachable dumps db \<Longrightarrow> reachable dumps (snd (insert_detection dumps now pid sig sev md db))"
| r_clear: "reachable dumps db \<Longrightarrow> reachable dumps (snd (clear_all_data db))"
| r_vacuum: "reachable dumps db \<Longrightarrow> reachable dumps (snd (vacuum_db db))"

text \<open>The primary keys of the three tables hold in a database.\<close>

definition primary_keys_ok :: "database \<Rightarrow> bool" where
  "primary_keys_ok db =
     ((case response_pairs db of None \<Rightarrow> True | Some rows \<Rightarrow> distinct (map pair_id rows))
    \<and> (case detections db of None \<Rightarrow> True | Some rows \<Rightarrow> distinct (map detection_id rows))
    \<and> (case schema_version db of None \<Rightarrow> True | Some rows \<Rightarrow> distinct (map version rows)))"

text \<open>Every stored detection has its severity between 0 and 1.\<close>

definition severities_in_range :: "database \<Rightarrow> bool" where
  "severities_in_range db =
     (case detections db of
        None \<Rightarrow> True
      | Some rows \<Rightarrow> \<forall>d \<in> set rows. 0.0 \<le> severity d \<and> severity d \<le> 1.0)"

section \<open>Python strings\<close>

text \<open>
  \<open>str.lower\<close> on code points up to 255: the letters \<open>A\<close> to \<open>Z\<close> and the
  accented capitals 192 to 214 and 216 to 222 move up by 32, everything else stays.
\<close>

definition lower_char :: "char \<Rightarrow> char" where
  "lower_char c =
     (let n = (of_char c :: nat)
      in if (65 \<le> n \<and> n \<le> 90) \<or> (192 \<le> n \<and> n \<le> 214) \<or> (216 \<le> n \<and> n \<le> 222)
         then char_of (n + 32) else c)"

definition lower :: "string \<Rightarrow> string" where
  "lower text = map lower_char text"

text \<open>\<open>phrase in text\<close>: \<open>phrase\<close> occurs in \<open>text\<close> as a contiguous piece.\<close>

fun contains :: "string \<Rightarrow> string \<Rightarrow> bool" where
  "contains phrase [] = (phrase = [])"
| "contains phrase (c # text) = (prefix phrase (c # text) \<or> contains phrase text)"

section \<open>src/src/signals/length\_ratio.py\<close>

record LengthRatioFinding =
  lr_row_id :: string
  lr_ratio :: "real option"
  lr_flagged :: bool

definition default_max_ratio :: real where
  "default_max_ratio = 3.0"

text \<open>
  The condition \<open>ratio > self.max_ratio or ratio < 1/self.max_ratio\<close>. \<open>or\<close> evaluates
  its second operand only when the first is false; the division raises when
  \<open>max_ratio\<close> is zero and returns the double nearest to the quotient otherwise.
\<close>

definition ratio_out_of_bounds :: "real \<Rightarrow> real \<Rightarrow> error + bool" where
  "ratio_out_of_bounds ratio max_ratio =
     (if ratio > max_ratio then Inr True
      else if max_ratio = 0 then Inl ZeroDivisionError
      else Inr (ratio < fl (1 / max_ratio)))"

text \<open>The \<open>for\<close> loop of \<open>analyze\<close>, with \<open>results\<close> as accumulator. The division of
  the two lengths returns the double nearest to their quotient.\<close>

fun length_ratio_loop ::
  "real \<Rightarrow> PreferenceRow list \<Rightarrow> LengthRatioFinding list \<Rightarrow> error + LengthRatioFinding list" where
  "length_ratio_loop max_ratio [] results = Inr results"
| "length_ratio_loop max_ratio (row # rows) results =
     (if length (chosen row) = 0 \<or> length (rejected row) = 0
      then length_ratio_loop max_ratio rows
             (results @ [\<lparr>lr_row_id = row_id row, lr_ratio = None, lr_flagged = True\<rparr>])
      else
        let ratio = fl (real (length (chosen row)) / real (length (rejected row)))
        in case ratio_out_of_bounds ratio max_ratio of
             Inl e \<Rightarrow> Inl e
           | Inr True \<Rightarrow>
               length_ratio_loop max_ratio rows
                 (results @ [\<lparr>lr_row_id = row_id row, lr_ratio = Some ratio, lr_flagged = True\<rparr>])
           | Inr False \<Rightarrow> length_ratio_loop max_ratio rows results)"

definition LengthRatioSignal_analyze ::
  "real \<Rightarrow> PreferenceRow list \<Rightarrow> error + LengthRatioFinding list" where
  "LengthRatioSignal_analyze max_ratio rows = length_ratio_loop max_ratio rows []"

section \<open>src/src/signals/refusal\_bias.py\<close>

definition REFUSAL_PHRASES :: "string list" where
  "REFUSAL_PHRASES =
     [''i can't help'',
      ''i cannot help'',
      ''i'm not able to'',
      ''i am not able to'',
      ''i won't be able to'',
      ''i'm unable to'',
      ''i cannot provide'',
      ''i will not provide'',
      ''i will not help'',
      ''i must decline'',
      ''i cannot assist'',
      ''i will not assist'']"

definition is_refusal :: "string \<Rightarrow> bool" where
  "is_refusal text =
     (if text = [] then False
      else list_ex (\<lambda>phrase. contains phrase (lower text)) REFUSAL_PHRASES)"

record RefusalBiasFinding =
  rb_row_id :: string
  rb_signal :: string
  rb_reason :: string
  rb_flagged :: bool

fun refusal_bias_loop ::
  "PreferenceRow list \<Rightarrow> RefusalBiasFinding list \<Rightarrow> RefusalBiasFinding list" where
  "refusal_bias_loop [] results = results"
| "refusal_bias_loop (row # rows) results =
     (let chosen_is_refusal = is_refusal (chosen row);
          rejected_is_refusal = is_refusal (rejected row)
      in if chosen_is_refusal \<and> \<not> rejected_is_refusal
         then refusal_bias_loop rows
                (results @ [\<lparr>rb_row_id = row_id row, rb_signal = ''refusal_bias'',
                             rb_reason = ''Model preferred a refusal over a valid response'',
                             rb_flagged = True\<rparr>])
         else refusal_bias_loop rows results)"

definition RefusalBiasSignal_analyze :: "PreferenceRow list \<Rightarrow> RefusalBiasFinding list" where
  "RefusalBiasSignal_analyze rows = refusal_bias_loop rows []"

text \<open>
  The specification's words: a text is a refusal when it contains a phrase of the
  lexicon as a case-insensitive substring, that is, some contiguous piece of the text
  equals the phrase up to the case of the letters.
\<close>

definition spec_is_refusal :: "string \<Rightarrow> bool" where
  "spec_is_refusal text =
     (\<exists>phrase \<in> set REFUSAL_PHRASES. \<exists>u v w. text = u @ v @ w \<and> lower v = lower phrase)"

section \<open>src/src/signals/semantic\_duplicates.py\<close>













section \<open>src/src/signals/repetition.py\<close>

subsection \<open>The pattern \<open>\b(\w+)(\s+\1){2,}\b\<close>\<close>

text \<open>
  \<open>\w\<close> and \<open>\s\<close> of a \<open>str\<close> pattern, on code points up to 255: letters, digits
  and the underscore; the white space characters.
\<close>

definition is_word :: "char \<Rightarrow> bool" where
  "is_word c =
     (let n = (of_char c :: nat)
      in (48 \<le> n \<and> n \<le> 57) \<or> (65 \<le> n \<and> n \<le> 90) \<or> n = 95 \<or> (97 \<le> n \<and> n \<le> 122)
         \<or> n = 170 \<or> n = 178 \<or> n = 179 \<or> n = 181 \<or> n = 185 \<or> n = 186
         \<or> (188 \<le> n \<and> n \<le> 190) \<or> (192 \<le> n \<and> n \<le> 214) \<or> (216 \<le> n \<and> n \<le> 246)
         \<or> 248 \<le> n)"

definition is_space :: "char \<Rightarrow> bool" where
  "is_space c =
     (let n = (of_char c :: nat)
      in (9 \<le> n \<and> n \<le> 13) \<or> (28 \<le> n \<and> n \<le> 32) \<or> n = 133 \<or> n = 160)"

text \<open>\<open>\b\<close> at the position between the character \<open>prev\<close> (\<open>None\<close> at the start of
  the string) and the rest \<open>s\<close>: exactly one side is a word character.\<close>

definition boundary :: "char option \<Rightarrow> string \<Rightarrow> bool" where
  "boundary prev s =
     ((case prev of None \<Rightarrow> False | Some c \<Rightarrow> is_word c)
        \<noteq> (case s of [] \<Rightarrow> False | c # cs \<Rightarrow> is_word c))"

text \<open>
  The matcher follows the backtracking search of \<open>re\<close>: each piece of the pattern
  yields the list of the ways in which it can match, in the order in which the engine
  tries them, and the first way that lets the rest of the pattern match wins.

  \<open>spans P s\<close> is a greedy \<open>X+\<close>: the matched text and the rest, longest first.
\<close>

definition spans :: "(char \<Rightarrow> bool) \<Rightarrow> string \<Rightarrow> (string \<times> string) list" where
  "spans P s = map (\<lambda>k. (take k s, drop k s)) (rev [1..<Suc (length (takeWhile P s))])"

text \<open>One round of the group \<open>(\s+\1)\<close> where group 1 is \<open>w\<close>: the possible rests.\<close>

definition rep_once :: "string \<Rightarrow> string \<Rightarrow> string list" where
  "rep_once w s =
     concat (map (\<lambda>(sp, r). if prefix w r then [drop (length w) r] else []) (spans is_space s))"

text \<open>
  \<open>(\s+\1){2,}\<close>, greedy: after \<open>k\<close> rounds the engine first tries one more round
  and, when that leads nowhere, stops here if \<open>k\<close> is at least 2. Every round consumes
  a character, so the length of the text bounds the number of rounds (\<open>fuel\<close>).
\<close>

fun reps :: "nat \<Rightarrow> string \<Rightarrow> nat \<Rightarrow> string \<Rightarrow> string list" where
  "reps 0 w k s = (if 2 \<le> k then [s] else [])"
| "reps (Suc fuel) w k s =
     concat (map (reps fuel w (Suc k)) (rep_once w s)) @ (if 2 \<le> k then [s] else [])"

text \<open>The whole pattern at one position: group 1 and the rest after the match.\<close>

definition match_at :: "char option \<Rightarrow> string \<Rightarrow> (string \<times> string) option" where
  "match_at prev s =
     (if \<not> boundary prev s then None
      else
        case concat (map (\<lambda>(w, r).
               concat (map (\<lambda>r'. if boundary (Some (last w)) r' then [(w, r')] else [])
                         (reps (length r) w 0 r)))
               (spans is_word s)) of
          [] \<Rightarrow> None
        | m # ms \<Rightarrow> Some m)"

text \<open>
  \<open>re.findall\<close>: the matches from left to right, not overlapping; the search goes
  on where the last match ended. Only group 1 of each match is kept, which is all that
  \<open>analyze\<close> reads (\<open>m[0]\<close>). Every step consumes a character or ends the search, so
  \<open>fuel\<close> above the length of the text is never used up.
\<close>

fun findall_from :: "nat \<Rightarrow> char option \<Rightarrow> string \<Rightarrow> string list" where
  "findall_from 0 prev s = []"
| "findall_from (Suc fuel) prev s =
     (case match_at prev s of
        Some (w, r) \<Rightarrow> w # findall_from fuel (Some (last w)) r
      | None \<Rightarrow> (case s of [] \<Rightarrow> [] | c # cs \<Rightarrow> findall_from fuel (Some c) cs))"

definition re_findall :: "string \<Rightarrow> string list" where
  "re_findall s = findall_from (Suc (length s)) None s"

subsection \<open>RepetitionSignal\<close>

text \<open>\<open>__init__\<close> stores \<open>min_repeats\<close>; \<open>self.pattern\<close> is the fixed pattern above.\<close>

record RepetitionSignal =
  min_repeats :: int

definition RepetitionSignal_init :: "int \<Rightarrow> RepetitionSignal" where
  "RepetitionSignal_init m = \<lparr>min_repeats = m\<rparr>"

definition default_min_repeats :: int where
  "default_min_repeats = 3"

record RepetitionFinding =
  rp_row_id :: string
  rp_field :: string
  matched_pattern :: "string list"
  rp_flagged :: bool

text \<open>The body of the inner loop for one field of one row.\<close>

definition repetition_field :: "string \<Rightarrow> string \<Rightarrow> string \<Rightarrow> RepetitionFinding list" where
  "repetition_field rid field txt =
     (if txt = [] then []
      else
        let matches = re_findall (lower txt)
        in if matches \<noteq> []
           then [\<lparr>rp_row_id = rid, rp_field = field, matched_pattern = matches,
                  rp_flagged = True\<rparr>]
           else [])"

fun repetition_loop :: "PreferenceRow list \<Rightarrow> RepetitionFinding list \<Rightarrow> RepetitionFinding list" where
  "repetition_loop [] signals = signals"
| "repetition_loop (row # rows) signals =
     repetition_loop rows
       (signals @ repetition_field (row_id row) ''chosen'' (chosen row)
                @ repetition_field (row_id row) ''rejected'' (rejected row))"

definition RepetitionSignal_analyze ::
  "RepetitionSignal \<Rightarrow> PreferenceRow list \<Rightarrow> RepetitionFinding list" where
  "RepetitionSignal_analyze self rows = repetition_loop rows []"

section \<open>Verified properties\<close>

subsection \<open>Rounding to doubles\<close>

lemma pow2_powr: "pow2 k = 2 powr (of_int k)"
  by (simp add: pow2_def powr_real_of_int field_simps)

lemma pow2_pos: "0 < pow2 k"
  by (simp add: pow2_powr)

lemma pow2_add: "pow2 (a + b) = pow2 a * pow2 b"
  by (simp add: pow2_powr powr_add)

lemma pow2_mono: "a \<le> b \<Longrightarrow> pow2 a \<le> pow2 b"
  by (simp add: pow2_powr)

lemma pow2_0: "pow2 0 = 1"
  by (simp add: pow2_def)

lemma floor_log_binade:
  assumes "pow2 k \<le> y" and "y < pow2 (k + 1)"
  shows "\<lfloor>log 2 y\<rfloor> = k"
proof -
  have "0 < y" using assms(1) pow2_pos [of k] by linarith
  then show ?thesis
    using assms by (simp add: floor_log_eq_powr_iff pow2_powr)
qed

lemma round_half_even_near:
  assumes "\<bar>y - of_int m\<bar> < 1 / 2"
  shows "round_half_even y = m"
proof (cases "of_int m \<le> y")
  case True
  with assms have "y < of_int m + 1" by linarith
  with True have f: "\<lfloor>y\<rfloor> = m" by (rule floor_unique)
  from assms True have "y - of_int m < 1 / 2" by linarith
  with f show ?thesis by (simp add: round_half_even_def Let_def)
next
  case False
  have m1: "(of_int (m - 1) :: real) = of_int m - 1" by simp
  from assms False have "of_int (m - 1) \<le> y" and "y < of_int (m - 1) + 1"
    unfolding m1 by linarith+
  then have f: "\<lfloor>y\<rfloor> = m - 1" by (rule floor_unique)
  from assms False have "y - of_int (m - 1) > 1 / 2" unfolding m1 by linarith
  with f show ?thesis by (simp add: round_half_even_def Let_def)
qed

lemma round_half_even_le:
  assumes "y \<le> of_int n"
  shows "round_half_even y \<le> n"
proof (cases "y = of_int n")
  case True
  then show ?thesis by (simp add: round_half_even_def Let_def)
next
  case False
  with assms have "y < of_int n" by simp
  then have "\<lfloor>y\<rfloor> < n" by (simp add: floor_less_iff)
  then show ?thesis by (simp add: round_half_even_def Let_def)
qed

lemma round_half_even_ge:
  assumes "of_int n \<le> y"
  shows "n \<le> round_half_even y"
proof -
  from assms have "n \<le> \<lfloor>y\<rfloor>" by (simp add: le_floor_iff)
  then show ?thesis by (simp add: round_half_even_def Let_def)
qed

lemma fl_binade:
  assumes "pow2 k \<le> \<bar>x\<bar>" and "\<bar>x\<bar> < pow2 (k + 1)"
  shows "fl x = of_int (round_half_even (x / pow2 (k - 52))) * pow2 (k - 52)"
proof -
  have "x \<noteq> 0" using assms(1) pow2_pos [of k] by auto
  moreover have "\<lfloor>log 2 \<bar>x\<bar>\<rfloor> = k" using assms by (rule floor_log_binade)
  ultimately show ?thesis by (simp add: fl_def Let_def)
qed

lemma fl_eqI:
  assumes "pow2 k \<le> \<bar>x\<bar>" and "\<bar>x\<bar> < pow2 (k + 1)"
      and "\<bar>x / pow2 (k - 52) - of_int m\<bar> < 1 / 2"
  shows "fl x = of_int m * pow2 (k - 52)"
  using fl_binade [OF assms(1,2)] round_half_even_near [OF assms(3)] by simp

lemma fl_1: "fl 1 = 1"
  using fl_eqI [of 0 1 "2 ^ 52"] by (simp add: pow2_def)

lemma fl_2: "fl 2 = 2"
  using fl_eqI [of 1 2 "2 ^ 52"] by (simp add: pow2_def)

lemma fl_3: "fl 3 = 3"
  using fl_eqI [of 1 3 6755399441055744] by (simp add: pow2_def)

lemma fl_half: "fl (1 / 2) = 1 / 2"
  using fl_eqI [of "-1" "1 / 2" "2 ^ 52"] by (simp add: pow2_def)

text \<open>The doubles that the decimal literals of the sources denote.\<close>

lemma fl_0_90: "fl (9 / 10) = 8106479329266893 / 2 ^ 53"
  using fl_eqI [of "-1" "9 / 10" 8106479329266893] by (simp add: pow2_def)

lemma fl_0_70: "fl (7 / 10) = 6305039478318694 / 2 ^ 53"
  using fl_eqI [of "-1" "7 / 10" 6305039478318694] by (simp add: pow2_def)

lemma fl_0_899999: "fl (899999 / 1000000) = 8106470322067638 / 2 ^ 53"
  using fl_eqI [of "-1" "899999 / 1000000" 8106470322067638] by (simp add: pow2_def)

lemma fl_0_69999: "fl (69999 / 100000) = 6304949406326147 / 2 ^ 53"
  using fl_eqI [of "-1" "69999 / 100000" 6304949406326147] by (simp add: pow2_def)

lemma fl_0_49999: "fl (49999 / 100000) = 9007019110755897 / 2 ^ 54"
  using fl_eqI [of "-2" "49999 / 100000" 9007019110755897] by (simp add: pow2_def)

lemma fl_0_95: "fl (19 / 20) = 8556839292003942 / 2 ^ 53"
  using fl_eqI [of "-1" "19 / 20" 8556839292003942] by (simp add: pow2_def)

lemmas fl_values = fl_1 fl_2 fl_3 fl_half fl_0_90 fl_0_70 fl_0_899999 fl_0_69999 fl_0_49999 fl_0_95

lemma fl_pos_bounds:
  assumes "0 < x"
  shows "0 < fl x" and "x \<le> 1 \<Longrightarrow> fl x \<le> 1"
proof -
  define k where "k = \<lfloor>log 2 x\<rfloor>"
  have kx: "pow2 k \<le> x \<and> x < pow2 (k + 1)"
    using assms floor_log_eq_powr_iff [of x 2 k] by (simp add: k_def pow2_powr)
  then have b: "pow2 k \<le> \<bar>x\<bar>" "\<bar>x\<bar> < pow2 (k + 1)" using assms by simp_all
  let ?u = "pow2 (k - 52)"
  have u: "0 < ?u" by (rule pow2_pos)
  have e: "fl x = of_int (round_half_even (x / ?u)) * ?u" by (rule fl_binade [OF b])
  have p52: "pow2 52 = 2 ^ 52" and p53: "pow2 53 = 2 ^ 53" by (simp_all add: pow2_def)
  have k52: "pow2 k = 2 ^ 52 * ?u"
    using pow2_add [of 52 "k - 52"] unfolding p52 by simp
  have k53: "pow2 (k + 1) = 2 ^ 53 * ?u"
    using pow2_add [of 53 "k - 52"] unfolding p53 by (simp add: add.commute)
  have "of_int (2 ^ 52) \<le> x / ?u"
    using kx u k52 by (simp add: pos_le_divide_eq)
  then have "2 ^ 52 \<le> round_half_even (x / ?u)" by (rule round_half_even_ge)
  then have "0 < round_half_even (x / ?u)" by simp
  with u e show "0 < fl x" by simp
  show "fl x \<le> 1" if "x \<le> 1"
  proof (cases "x = 1")
    case True
    then show ?thesis by (simp add: fl_1)
  next
    case False
    with that have "x < 1" by simp
    have "k < 0"
    proof (rule ccontr)
      assume "\<not> k < 0"
      then have "pow2 0 \<le> pow2 k" by (intro pow2_mono) simp
      with kx \<open>x < 1\<close> show False by (simp add: pow2_0)
    qed
    then have "pow2 (k + 1) \<le> pow2 0" by (intro pow2_mono) simp
    then have le1: "2 ^ 53 * ?u \<le> 1" by (simp add: k53 pow2_0)
    have "x / ?u \<le> of_int (2 ^ 53)"
      using kx u k53 by (simp add: pos_divide_le_eq)
    then have "round_half_even (x / ?u) \<le> 2 ^ 53" by (rule round_half_even_le)
    then have "of_int (round_half_even (x / ?u)) \<le> (2 ^ 53 :: real)"
      by (metis of_int_le_iff of_int_numeral of_int_power)
    then have "of_int (round_half_even (x / ?u)) * ?u \<le> 2 ^ 53 * ?u"
      using u by (simp add: mult_right_mono)
    with le1 e show ?thesis by simp
  qed
qed

subsection \<open>PreferenceRow\<close>

text \<open>
  C9. Constructing a \<open>PreferenceRow\<close> fails, with a \<open>ValueError\<close>, exactly when
  \<open>row_id\<close>, \<open>prompt\<close>, \<open>chosen\<close> or \<open>rejected\<close> is the empty string; when all four
  are non-empty it succeeds and the fields of the record are the arguments.
\<close>

theorem PreferenceRow_construction:
  "((\<exists>e. new_PreferenceRow p c r i = Inl e) \<longleftrightarrow> (i = [] \<or> p = [] \<or> c = [] \<or> r = []))
   \<and> (new_PreferenceRow p c r i = Inl ValueError \<longleftrightarrow> (i = [] \<or> p = [] \<or> c = [] \<or> r = []))
   \<and> (i \<noteq> [] \<and> p \<noteq> [] \<and> c \<noteq> [] \<and> r \<noteq> [] \<longrightarrow>
        new_PreferenceRow p c r i = Inr \<lparr>prompt = p, chosen = c, rejected = r, row_id = i\<rparr>)"
  by (simp add: new_PreferenceRow_def post_init_def)

theorem PreferenceRow_construction_witness:
  "new_PreferenceRow ''q'' ''a'' ''b'' ''hh-rlhf-train-0'' =
     Inr \<lparr>prompt = ''q'', chosen = ''a'', rejected = ''b'', row_id = ''hh-rlhf-train-0''\<rparr>
   \<and> new_PreferenceRow ''q'' [] ''b'' ''hh-rlhf-train-0'' = Inl ValueError"
  using PreferenceRow_construction [of "''q''" "''a''" "''b''" "''hh-rlhf-train-0''"]
        PreferenceRow_construction [of "''q''" "[]" "''b''" "''hh-rlhf-train-0''"]
  by simp

subsection \<open>Severity classifier\<close>

lemma grid_ge:
  fixes m n :: int
  assumes "(c :: real) \<le> of_int m / 2 ^ 53" and "of_int n - 1 < c * 2 ^ 53"
  shows "(of_int n :: real) / 2 ^ 53 \<le> of_int m / 2 ^ 53"
proof -
  from assms(1) have "c * 2 ^ 53 \<le> of_int m" by (simp add: pos_le_divide_eq)
  with assms(2) have "(of_int n :: real) - 1 < of_int m" by linarith
  then have "(of_int (n - 1) :: real) < of_int m" by simp
  then have "n - 1 < m" by (simp only: of_int_less_iff)
  then have "n \<le> m" by simp
  then have "(of_int n :: real) \<le> of_int m" by (simp only: of_int_le_iff)
  then show ?thesis by (simp add: divide_right_mono)
qed

lemma double_thresholds:
  assumes grid: "1 / 2 \<le> s \<longrightarrow> (\<exists>m :: int. s = of_int m / 2 ^ 53)"
  shows "(fl 0.90 \<le> s \<longleftrightarrow> 0.90 \<le> s)"
    and "(fl 0.50 \<le> s \<longleftrightarrow> 0.50 \<le> s)"
    and "(fl 0.70 \<le> s \<longleftrightarrow> 0.70 \<le> s \<or> s = fl 0.70)"
proof -
  show "(fl 0.90 \<le> s \<longleftrightarrow> 0.90 \<le> s)"
  proof
    assume "fl 0.90 \<le> s"
    then show "0.90 \<le> s" by (simp add: fl_values)
  next
    assume h: "0.90 \<le> s"
    with grid obtain m :: int where m: "s = of_int m / 2 ^ 53" by auto
    from h have "0.90 \<le> real_of_int m / 2 ^ 53" by (simp only: m)
    from grid_ge [OF this, of 8106479329266893] show "fl 0.90 \<le> s"
      by (simp add: fl_values m)
  qed
  show "(fl 0.50 \<le> s \<longleftrightarrow> 0.50 \<le> s)" by (simp add: fl_values)
  show "(fl 0.70 \<le> s \<longleftrightarrow> 0.70 \<le> s \<or> s = fl 0.70)"
  proof
    assume h: "fl 0.70 \<le> s"
    then have "1 / 2 \<le> s" by (simp add: fl_values)
    with grid obtain m :: int where m: "s = of_int m / 2 ^ 53" by auto
    show "0.70 \<le> s \<or> s = fl 0.70"
    proof (cases "s = fl 0.70")
      case True
      then show ?thesis by simp
    next
      case False
      with h have "fl 0.70 < s" by simp
      then have "(6305039478318694 :: real) < of_int m" by (simp add: fl_values m)
      then have "(of_int 6305039478318694 :: real) < of_int m" by simp
      then have "6305039478318694 < m" by (simp only: of_int_less_iff)
      then have "6305039478318695 \<le> m" by simp
      then have "(of_int 6305039478318695 :: real) \<le> of_int m" by (simp only: of_int_le_iff)
      then have "0.70 \<le> s" by (simp add: m pos_le_divide_eq)
      then show ?thesis by simp
    qed
  next
    assume "0.70 \<le> s \<or> s = fl 0.70"
    then show "fl 0.70 \<le> s" by (auto simp add: fl_values)
  qed
qed

text \<open>
  C3. The numerals of the claim are read as the program reads them, as doubles. On the
  interval from 0 to 1 \<open>get_severity_level\<close> always returns a level: \<open>critical\<close>
  exactly from 0.90 up, \<open>high\<close> exactly from 0.70 up to but not including 0.90,
  \<open>medium\<close> exactly from 0.50 up to but not including 0.70, \<open>low\<close> exactly below
  0.50; the six boundary values of the specification fall as it lists them; and
  outside the interval the function raises \<open>ValueError\<close> instead of clamping. For a
  severity that is itself a double (from one half up, a multiple of \<open>2\<^sup>-\<^sup>5\<^sup>3\<close>) the
  comparisons with the doubles 0.90 and 0.50 are the comparisons with the decimals,
  and the comparison with the double 0.70 differs from the one with the decimal only
  at the double 0.70 itself, which is \<open>high\<close>.
\<close>

theorem get_severity_level_buckets:
  "(0 \<le> s \<and> s \<le> 1 \<longrightarrow>
      (\<exists>l. get_severity_level s = Inr l)
    \<and> (get_severity_level s = Inr ''critical'' \<longleftrightarrow> s \<ge> fl 0.90)
    \<and> (get_severity_level s = Inr ''high'' \<longleftrightarrow> fl 0.70 \<le> s \<and> s < fl 0.90)
    \<and> (get_severity_level s = Inr ''medium'' \<longleftrightarrow> fl 0.50 \<le> s \<and> s < fl 0.70)
    \<and> (get_severity_level s = Inr ''low'' \<longleftrightarrow> s < fl 0.50))
   \<and> get_severity_level (fl 0.90) = Inr ''critical''
   \<and> get_severity_level (fl 0.899999) = Inr ''high''
   \<and> get_severity_level (fl 0.70) = Inr ''high''
   \<and> get_severity_level (fl 0.69999) = Inr ''medium''
   \<and> get_severity_level (fl 0.50) = Inr ''medium''
   \<and> get_severity_level (fl 0.49999) = Inr ''low''
   \<and> (s < 0 \<or> 1 < s \<longrightarrow> get_severity_level s = Inl ValueError)
   \<and> ((1 / 2 \<le> s \<longrightarrow> (\<exists>m :: int. s = of_int m / 2 ^ 53)) \<longrightarrow>
        (fl 0.90 \<le> s \<longleftrightarrow> 0.90 \<le> s) \<and> (fl 0.50 \<le> s \<longleftrightarrow> 0.50 \<le> s)
        \<and> (fl 0.70 \<le> s \<longleftrightarrow> 0.70 \<le> s \<or> s = fl 0.70))"
proof -
  have order: "fl 0.50 < fl 0.70" "fl 0.70 < fl 0.90" "0 < fl 0.50" "fl 0.90 < 1"
    by (simp_all add: fl_values)
  have buckets: "0 \<le> s \<and> s \<le> 1 \<longrightarrow>
      (\<exists>l. get_severity_level s = Inr l)
    \<and> (get_severity_level s = Inr ''critical'' \<longleftrightarrow> s \<ge> fl 0.90)
    \<and> (get_severity_level s = Inr ''high'' \<longleftrightarrow> fl 0.70 \<le> s \<and> s < fl 0.90)
    \<and> (get_severity_level s = Inr ''medium'' \<longleftrightarrow> fl 0.50 \<le> s \<and> s < fl 0.70)
    \<and> (get_severity_level s = Inr ''low'' \<longleftrightarrow> s < fl 0.50)"
    using order by (auto simp add: get_severity_level_def)
  have ex: "get_severity_level (fl 0.90) = Inr ''critical''"
     "get_severity_level (fl 0.899999) = Inr ''high''"
     "get_severity_level (fl 0.70) = Inr ''high''"
     "get_severity_level (fl 0.69999) = Inr ''medium''"
     "get_severity_level (fl 0.50) = Inr ''medium''"
     "get_severity_level (fl 0.49999) = Inr ''low''"
    by (simp_all add: get_severity_level_def fl_values)
  have out: "s < 0 \<or> 1 < s \<longrightarrow> get_severity_level s = Inl ValueError"
    by (auto simp add: get_severity_level_def)
  from buckets ex out double_thresholds [of s] show ?thesis by blast
qed

theorem get_severity_level_buckets_witness:
  "0 \<le> (3 / 4 :: real) \<and> (3 / 4 :: real) \<le> 1
   \<and> (3 / 4 :: real) = of_int 6755399441055744 / 2 ^ 53
   \<and> get_severity_level (3 / 4) = Inr ''high''
   \<and> (1 :: real) < 2 \<and> get_severity_level 2 = Inl ValueError"
proof -
  have g: "(3 / 4 :: real) = of_int 6755399441055744 / 2 ^ 53" by simp
  have r: "0 \<le> (3 / 4 :: real) \<and> (3 / 4 :: real) \<le> 1" by simp
  have grid: "1 / 2 \<le> (3 / 4 :: real) \<longrightarrow> (\<exists>m :: int. (3 / 4 :: real) = of_int m / 2 ^ 53)"
    using g by blast
  from get_severity_level_buckets [of "3 / 4"] r
  have hi: "get_severity_level (3 / 4) = Inr ''high'' \<longleftrightarrow>
      fl 0.70 \<le> 3 / 4 \<and> (3 / 4 :: real) < fl 0.90"
    by blast
  from get_severity_level_buckets [of "3 / 4"] grid
  have "fl 0.70 \<le> (3 / 4 :: real) \<longleftrightarrow> 0.70 \<le> (3 / 4 :: real) \<or> (3 / 4 :: real) = fl 0.70"
    by blast
  then have lo: "fl 0.70 \<le> (3 / 4 :: real)" by simp
  have up: "(3 / 4 :: real) < fl 0.90" by (simp add: fl_values)
  from hi lo up have h: "get_severity_level (3 / 4) = Inr ''high''" by blast
  have o: "(1 :: real) < 2" by simp
  with get_severity_level_buckets [of 2] have e: "get_severity_level 2 = Inl ValueError"
    by blast
  from r g h o e show ?thesis by blast
qed

subsection \<open>Detection store: helper lemmas\<close>

lemmas conn_defs = get_db_connection_def connect_def commit_def rollback_def
lemmas schema_defs = SCHEMA_SQL_def create_index_def create_schema_version_def
  create_detections_def create_response_pairs_def

lemma SCHEMA_SQL_fixed:
  assumes "response_pairs d \<noteq> None" "detections d \<noteq> None" "schema_version d \<noteq> None"
    "''idx_detections_pair_id'' \<in> indexes d" "''idx_detections_signal_type'' \<in> indexes d"
    "''idx_detections_severity'' \<in> indexes d"
  shows "SCHEMA_SQL d = d"
  using assms by (auto simp add: schema_defs insert_absorb)

lemma response_pairs_SCHEMA_SQL:
  "response_pairs (SCHEMA_SQL db) = Some (case response_pairs db of None \<Rightarrow> [] | Some rows \<Rightarrow> rows)"
  by (simp add: schema_defs split: option.splits)

lemma detections_SCHEMA_SQL:
  "detections (SCHEMA_SQL db) = Some (case detections db of None \<Rightarrow> [] | Some rows \<Rightarrow> rows)"
  by (simp add: schema_defs split: option.splits)

lemma schema_version_SCHEMA_SQL:
  "schema_version (SCHEMA_SQL db) = Some (case schema_version db of None \<Rightarrow> [] | Some rows \<Rightarrow> rows)"
  by (simp add: schema_defs split: option.splits)

lemma indexes_SCHEMA_SQL:
  "indexes (SCHEMA_SQL db) = insert ''idx_detections_severity'' (insert ''idx_detections_signal_type''
      (insert ''idx_detections_pair_id'' (indexes db)))"
  by (simp add: schema_defs)

lemma SCHEMA_SQL_idem: "SCHEMA_SQL (SCHEMA_SQL db) = SCHEMA_SQL db"
  by (rule SCHEMA_SQL_fixed)
     (simp_all add: response_pairs_SCHEMA_SQL detections_SCHEMA_SQL schema_version_SCHEMA_SQL
        indexes_SCHEMA_SQL)

lemma SCHEMA_SQL_versioned:
  "SCHEMA_SQL ((SCHEMA_SQL db)\<lparr>schema_version := Some rows\<rparr>) = (SCHEMA_SQL db)\<lparr>schema_version := Some rows\<rparr>"
  by (rule SCHEMA_SQL_fixed)
     (simp_all add: response_pairs_SCHEMA_SQL detections_SCHEMA_SQL indexes_SCHEMA_SQL)

lemma find_SomeD: "find P xs = Some z \<Longrightarrow> z \<in> set xs \<and> P z"
  by (induction xs) (auto split: if_splits)

lemma executescript_connect:
  "executescript SCHEMA_SQL (connect db) = \<lparr>committed = SCHEMA_SQL db, working = SCHEMA_SQL db\<rparr>"
  by (simp add: executescript_def connect_def commit_def Let_def)

lemma insert_schema_version_fresh:
  assumes rows: "schema_version d = Some rows" and notin: "v \<notin> version ` set rows"
  shows "insert_schema_version now v \<lparr>committed = d, working = d\<rparr> =
          (Inr (), \<lparr>committed = d, working = d\<lparr>schema_version :=
                  Some (rows @ [\<lparr>version = v, applied_at = now\<rparr>])\<rparr>\<rparr>)"
  using notin unfolding insert_schema_version_def by (simp add: rows)

lemma select_version_rows:
  assumes rows: "schema_version d = Some rows"
  shows "select_version v \<lparr>committed = d, working = d\<rparr> =
           Inr (map_option version (find (\<lambda>r. version r = v) rows))"
  by (simp add: select_version_def rows)

lemma init_db_cases:
  obtains
    (fresh) rows where "schema_version (SCHEMA_SQL db) = Some rows"
      and "CURRENT_SCHEMA_VERSION \<notin> version ` set rows"
      and "init_db now db = (Inr (), (SCHEMA_SQL db)\<lparr>schema_version :=
             Some (rows @ [\<lparr>version = CURRENT_SCHEMA_VERSION, applied_at = now\<rparr>])\<rparr>)"
  | (present) rows where "schema_version (SCHEMA_SQL db) = Some rows"
      and "CURRENT_SCHEMA_VERSION \<in> version ` set rows"
      and "init_db now db = (Inr (), SCHEMA_SQL db)"
proof -
  obtain rows where rows: "schema_version (SCHEMA_SQL db) = Some rows"
    by (simp add: schema_version_SCHEMA_SQL)
  note sel = select_version_rows [OF rows, of CURRENT_SCHEMA_VERSION]
  show ?thesis
  proof (cases "find (\<lambda>r. version r = CURRENT_SCHEMA_VERSION) rows")
    case None
    then have notin: "CURRENT_SCHEMA_VERSION \<notin> version ` set rows"
      by (auto simp add: find_None_iff)
    note ins = insert_schema_version_fresh [OF rows notin, of now]
    have "init_db now db = (Inr (), (SCHEMA_SQL db)\<lparr>schema_version :=
                  Some (rows @ [\<lparr>version = CURRENT_SCHEMA_VERSION, applied_at = now\<rparr>])\<rparr>)"
      unfolding init_db_def get_db_connection_def executescript_connect Let_def sel None ins
      by (simp add: commit_def)
    with rows notin show ?thesis by (rule fresh)
  next
    case (Some z)
    then have isin: "CURRENT_SCHEMA_VERSION \<in> version ` set rows"
      using find_SomeD[OF Some] by force
    have "init_db now db = (Inr (), SCHEMA_SQL db)"
      unfolding init_db_def get_db_connection_def executescript_connect Let_def sel Some
      by (simp add: commit_def)
    with rows isin show ?thesis by (rule present)
  qed
qed

lemma init_db_succeeds: "fst (init_db now db) = Inr ()"
  by (rule init_db_cases [of db now]) simp_all

lemma init_db_fixed: "SCHEMA_SQL (snd (init_db now db)) = snd (init_db now db)"
  by (rule init_db_cases [of db now]) (simp_all add: SCHEMA_SQL_idem SCHEMA_SQL_versioned)

lemma init_db_version_present:
  "\<exists>rows. schema_version (snd (init_db now db)) = Some rows
     \<and> CURRENT_SCHEMA_VERSION \<in> version ` set rows
     \<and> (primary_keys_ok db \<longrightarrow> distinct (map version rows))"
proof (rule init_db_cases [of db now])
  fix rows
  assume rows: "schema_version (SCHEMA_SQL db) = Some rows"
    and notin: "CURRENT_SCHEMA_VERSION \<notin> version ` set rows"
    and res: "init_db now db = (Inr (), (SCHEMA_SQL db)\<lparr>schema_version :=
             Some (rows @ [\<lparr>version = CURRENT_SCHEMA_VERSION, applied_at = now\<rparr>])\<rparr>)"
  have "primary_keys_ok db \<longrightarrow> distinct (map version rows)"
    using rows by (auto simp add: primary_keys_ok_def schema_version_SCHEMA_SQL split: option.splits)
  with notin show ?thesis by (simp add: res)
next
  fix rows
  assume rows: "schema_version (SCHEMA_SQL db) = Some rows"
    and isin: "CURRENT_SCHEMA_VERSION \<in> version ` set rows"
    and res: "init_db now db = (Inr (), SCHEMA_SQL db)"
  have "primary_keys_ok db \<longrightarrow> distinct (map version rows)"
    using rows by (auto simp add: primary_keys_ok_def schema_version_SCHEMA_SQL split: option.splits)
  with isin rows show ?thesis by (simp add: res)
qed

lemma init_db_twice: "init_db t2 (snd (init_db t1 db)) = (Inr (), snd (init_db t1 db))"
proof -
  let ?d = "snd (init_db t1 db)"
  obtain rows where rows: "schema_version ?d = Some rows"
      and isin: "CURRENT_SCHEMA_VERSION \<in> version ` set rows"
    using init_db_version_present [of t1 db] by blast
  show ?thesis
  proof (rule init_db_cases [of ?d t2])
    fix rows'
    assume "schema_version (SCHEMA_SQL ?d) = Some rows'"
      and "CURRENT_SCHEMA_VERSION \<notin> version ` set rows'"
    with rows isin have False by (simp add: init_db_fixed)
    then show ?thesis ..
  next
    fix rows'
    assume "init_db t2 ?d = (Inr (), SCHEMA_SQL ?d)"
    then show ?thesis by (simp add: init_db_fixed)
  qed
qed

lemma count_unique:
  "distinct (map f xs) \<Longrightarrow> v \<in> f ` set xs \<Longrightarrow> length (filter (\<lambda>r. f r = v) xs) = 1"
proof (induction xs)
  case Nil
  then show ?case by simp
next
  case (Cons x xs)
  show ?case
  proof (cases "f x = v")
    case True
    with Cons.prems have "v \<notin> f ` set xs" by auto
    then have "filter (\<lambda>r. f r = v) xs = []" by (auto simp add: filter_empty_conv)
    with True show ?thesis by simp
  next
    case False
    with Cons show ?thesis by auto
  qed
qed

subsection \<open>Schema initialisation\<close>

text \<open>
  C4. \<open>init_db\<close> is idempotent. From any database the first call succeeds; a second
  call succeeds too and leaves the database exactly as the first call left it, so the
  set of tables is the same; and, the primary keys holding in the starting database,
  the \<open>schema_version\<close> table then has exactly one row for the current version.
\<close>

theorem init_db_idempotent:
  "fst (init_db t1 db) = Inr ()
   \<and> init_db t2 (snd (init_db t1 db)) = (Inr (), snd (init_db t1 db))
   \<and> tables (snd (init_db t2 (snd (init_db t1 db)))) = tables (snd (init_db t1 db))
   \<and> (primary_keys_ok db \<longrightarrow>
        (\<exists>rows. schema_version (snd (init_db t2 (snd (init_db t1 db)))) = Some rows
           \<and> length (filter (\<lambda>r. version r = CURRENT_SCHEMA_VERSION) rows) = 1))"
proof -
  obtain rows where rows: "schema_version (snd (init_db t1 db)) = Some rows"
      and isin: "CURRENT_SCHEMA_VERSION \<in> version ` set rows"
      and dist: "primary_keys_ok db \<longrightarrow> distinct (map version rows)"
    using init_db_version_present [of t1 db] by blast
  have "primary_keys_ok db \<longrightarrow> length (filter (\<lambda>r. version r = CURRENT_SCHEMA_VERSION) rows) = 1"
    using dist isin by (simp add: count_unique)
  then show ?thesis
    by (simp add: init_db_succeeds init_db_twice rows)
qed


theorem init_db_idempotent_witness:
  "primary_keys_ok empty_db
   \<and> init_db 7 (snd (init_db 3 empty_db)) = (Inr (), snd (init_db 3 empty_db))
   \<and> (\<exists>rows. schema_version (snd (init_db 7 (snd (init_db 3 empty_db)))) = Some rows
           \<and> length (filter (\<lambda>r. version r = CURRENT_SCHEMA_VERSION) rows) = 1)"
proof -
  have pk: "primary_keys_ok empty_db"
    by (simp add: primary_keys_ok_def empty_db_def)
  with init_db_idempotent [of 3 empty_db 7] show ?thesis
    by blast
qed

subsection \<open>Inserting detections\<close>

lemma insert_detection_cases:
  "insert_detection dumps now pid sig sev md db =
     (if \<not> (0 \<le> sev \<and> sev \<le> 1) then (Inl ValueError, db)
      else case serialize_metadata dumps md of
        Inl e \<Rightarrow> (Inl e, db)
      | Inr metadata_json \<Rightarrow>
         (case detections db of
            None \<Rightarrow> (Inl OperationalError, db)
          | Some rows \<Rightarrow>
             (case response_pairs db of
                None \<Rightarrow> (Inl OperationalError, db)
              | Some pairs \<Rightarrow>
                  if pid \<notin> pair_id ` set pairs then (Inl (IntegrityError ForeignKey), db)
                  else (Inr (Suc (fold max (map detection_id rows) (detections_seq db))),
                        db\<lparr>detections := Some (rows @
                            [\<lparr>detection_id = Suc (fold max (map detection_id rows) (detections_seq db)),
                              d_pair_id = pid, signal_type = sig, severity = sev,
                              metadata = metadata_json, detected_at = now\<rparr>]),
                           detections_seq := Suc (fold max (map detection_id rows) (detections_seq db))\<rparr>))))"
  by (simp add: insert_detection_def sql_insert_detection_def conn_defs Let_def
           split: option.splits sum.splits)

lemma insert_detection_ser_Inl:
  "0 \<le> sev \<and> sev \<le> 1 \<Longrightarrow> serialize_metadata dumps md = Inl e \<Longrightarrow>
     insert_detection dumps now pid sig sev md db = (Inl e, db)"
  by (simp add: insert_detection_def)

lemma insert_detection_ser_Inr:
  "0 \<le> sev \<and> sev \<le> 1 \<Longrightarrow> serialize_metadata dumps md = Inr mj \<Longrightarrow>
     insert_detection dumps now pid sig sev md db =
       get_db_connection (sql_insert_detection now pid sig sev mj) db"
  by (simp add: insert_detection_def)

lemma sql_insert_detection_no_ValueError:
  "fst (get_db_connection (sql_insert_detection now pid sig sev mj) db) \<noteq> Inl ValueError"
  by (simp add: sql_insert_detection_def conn_defs Let_def split: option.splits)

lemma serialize_metadata_cases:
  "serialize_metadata dumps None = Inr None"
  "serialize_metadata dumps (Some []) = Inr None"
  "m \<noteq> [] \<Longrightarrow> dumps m = Inr j \<Longrightarrow> serialize_metadata dumps (Some m) = Inr (Some j)"
  "m \<noteq> [] \<Longrightarrow> dumps m = Inl e \<Longrightarrow> serialize_metadata dumps (Some m) = Inl e"
  by (simp_all add: serialize_metadata_def)

lemma serialize_metadata_Inl:
  "serialize_metadata dumps md = Inl e \<Longrightarrow> \<exists>m. md = Some m \<and> m \<noteq> [] \<and> dumps m = Inl e"
  by (auto simp add: serialize_metadata_def split: option.splits if_splits sum.splits)

lemma serialize_metadata_Inr:
  "serialize_metadata dumps md = Inr mj \<Longrightarrow>
     (md = None \<or> md = Some [] \<longrightarrow> mj = None)
     \<and> (\<forall>m. md = Some m \<and> m \<noteq> [] \<longrightarrow> (\<exists>j. dumps m = Inr j \<and> mj = Some j))"
  by (auto simp add: serialize_metadata_def split: option.splits if_splits sum.splits)

lemma insert_response_pair_detections:
  "detections (snd (insert_response_pair now pid c r src db)) = detections db"
  by (simp add: insert_response_pair_def sql_insert_response_pair_def conn_defs
           split: option.splits)

lemma vacuum_db_same: "vacuum_db db = (Inr (), db)"
  by (simp add: vacuum_db_def conn_defs)

lemma clear_all_data_detections:
  "detections (snd (clear_all_data db)) = detections db
   \<or> detections (snd (clear_all_data db)) = Some []"
  by (simp add: clear_all_data_def delete_detections_def delete_response_pairs_def conn_defs
           split: option.splits)

lemma init_db_detections:
  "detections (snd (init_db now db)) = Some (case detections db of None \<Rightarrow> [] | Some rows \<Rightarrow> rows)"
  by (rule init_db_cases [of db now]) (simp_all add: detections_SCHEMA_SQL)

lemma insert_detection_severities:
  "severities_in_range db \<Longrightarrow> severities_in_range (snd (insert_detection dumps now pid sig sev md db))"
  by (auto simp add: insert_detection_cases severities_in_range_def split: option.splits sum.splits)

lemma reachable_severities: "reachable dumps db \<Longrightarrow> severities_in_range db"
proof (induction rule: reachable.induct)
  case r_empty
  show ?case by (simp add: severities_in_range_def empty_db_def)
next
  case (r_init db now)
  then show ?case
    by (simp add: severities_in_range_def init_db_detections split: option.splits)
next
  case (r_pair db now pid c r src)
  then show ?case
    by (simp add: severities_in_range_def insert_response_pair_detections)
next
  case (r_detection db now pid sig sev md)
  then show ?case by (simp add: insert_detection_severities)
next
  case (r_clear db)
  with clear_all_data_detections [of db] show ?case
    by (auto simp add: severities_in_range_def)
next
  case (r_vacuum db)
  then show ?case by (simp add: vacuum_db_same)
qed

lemma init_empty:
  "init_db 10 empty_db =
     (Inr (), \<lparr>response_pairs = Some [], detections = Some [], detections_seq = 0,
               schema_version = Some [\<lparr>version = 1, applied_at = 10\<rparr>],
               indexes = {''idx_detections_severity'', ''idx_detections_signal_type'',
                          ''idx_detections_pair_id''}\<rparr>)"
  by (simp add: init_db_def executescript_def conn_defs select_version_def
        insert_schema_version_def schema_defs empty_db_def CURRENT_SCHEMA_VERSION_def Let_def)

lemma stored_example:
  "insert_detection (\<lambda>m :: (string \<times> string) list. Inr ''{}'') 12 ''p1'' ''refusal_bias'' 1 md
     (snd (insert_response_pair 11 ''p1'' ''I cannot help'' ''Sure'' ''hh-rlhf'' (snd (init_db 10 empty_db))))
   = (Inr 1,
      \<lparr>response_pairs = Some [\<lparr>pair_id = ''p1'', rp_chosen = ''I cannot help'', rp_rejected = ''Sure'',
                                source_dataset = ''hh-rlhf'', created_at = 11\<rparr>],
        detections = Some [\<lparr>detection_id = 1, d_pair_id = ''p1'', signal_type = ''refusal_bias'',
                             severity = 1,
                             metadata = (case md of None \<Rightarrow> None | Some m \<Rightarrow> if m \<noteq> [] then Some ''{}'' else None),
                             detected_at = 12\<rparr>],
        detections_seq = 1,
        schema_version = Some [\<lparr>version = 1, applied_at = 10\<rparr>],
        indexes = {''idx_detections_severity'', ''idx_detections_signal_type'',
                          ''idx_detections_pair_id''}\<rparr>)"
  by (simp add: init_empty insert_detection_cases serialize_metadata_def insert_response_pair_def
        sql_insert_response_pair_def conn_defs split: option.splits)

text \<open>
  C2. \<open>insert_detection\<close> with a severity outside the interval from 0 to 1 raises
  \<open>ValueError\<close> and leaves the database as it was. With a severity inside the
  interval the range check passes: the call then does not raise \<open>ValueError\<close>, unless
  \<open>json.dumps\<close> raises one for the metadata, which is a later step. And in every
  database that the operations of the store produce from the empty file, every stored
  detection has its severity between 0 and 1.
\<close>

theorem insert_detection_severity_range:
  "(\<not> (0 \<le> sev \<and> sev \<le> 1) \<longrightarrow>
       insert_detection dumps now pid sig sev md db = (Inl ValueError, db))
   \<and> (0 \<le> sev \<and> sev \<le> 1 \<and> fst (insert_detection dumps now pid sig sev md db) = Inl ValueError \<longrightarrow>
       (\<exists>m. md = Some m \<and> m \<noteq> [] \<and> dumps m = Inl ValueError))
   \<and> (0 \<le> sev \<and> sev \<le> 1 \<and> (md = None \<or> md = Some [] \<or> (\<exists>m j. md = Some m \<and> dumps m = Inr j)) \<longrightarrow>
       fst (insert_detection dumps now pid sig sev md db) \<noteq> Inl ValueError)
   \<and> (reachable dumps db' \<longrightarrow>
       (\<forall>rows. detections db' = Some rows \<longrightarrow>
          (\<forall>d \<in> set rows. 0 \<le> severity d \<and> severity d \<le> 1)))"
proof -
  have inv: "reachable dumps db' \<longrightarrow>
       (\<forall>rows. detections db' = Some rows \<longrightarrow>
          (\<forall>d \<in> set rows. 0 \<le> severity d \<and> severity d \<le> 1))"
    using reachable_severities [of dumps db'] by (auto simp add: severities_in_range_def)
  have pass: "\<exists>m. md = Some m \<and> m \<noteq> [] \<and> dumps m = Inl ValueError"
    if "0 \<le> sev \<and> sev \<le> 1 \<and> fst (insert_detection dumps now pid sig sev md db) = Inl ValueError"
  proof (cases "serialize_metadata dumps md")
    case (Inl e)
    from that have r: "0 \<le> sev \<and> sev \<le> 1" by blast
    from insert_detection_ser_Inl [OF r Inl, of now pid sig db] that
    have "e = ValueError" by simp
    with Inl show ?thesis by (simp add: serialize_metadata_Inl)
  next
    case (Inr mj)
    from that have r: "0 \<le> sev \<and> sev \<le> 1" by blast
    from insert_detection_ser_Inr [OF r Inr, of now pid sig db] that
      sql_insert_detection_no_ValueError [of now pid sig sev mj db]
    have False by simp
    then show ?thesis ..
  qed
  have pass': "fst (insert_detection dumps now pid sig sev md db) \<noteq> Inl ValueError"
    if "0 \<le> sev \<and> sev \<le> 1 \<and> (md = None \<or> md = Some [] \<or> (\<exists>m j. md = Some m \<and> dumps m = Inr j))"
  proof
    assume "fst (insert_detection dumps now pid sig sev md db) = Inl ValueError"
    with that pass obtain m where "md = Some m \<and> m \<noteq> [] \<and> dumps m = Inl ValueError" by blast
    with that show False by auto
  qed
  have out: "\<not> (0 \<le> sev \<and> sev \<le> 1) \<longrightarrow>
       insert_detection dumps now pid sig sev md db = (Inl ValueError, db)"
    by (simp add: insert_detection_cases)
  from inv pass pass' out show ?thesis by blast
qed

theorem insert_detection_severity_range_witness:
  "insert_detection (\<lambda>m :: (string \<times> string) list. Inr ''{}'') 12 ''p1'' ''refusal_bias'' (3/2) None
           (snd (init_db 10 empty_db)) = (Inl ValueError, snd (init_db 10 empty_db))
   \<and> fst (insert_detection (\<lambda>m :: (string \<times> string) list. Inr ''{}'') 12 ''p1'' ''refusal_bias'' 1 None
           (snd (init_db 10 empty_db))) \<noteq> Inl ValueError
   \<and> reachable (\<lambda>m :: (string \<times> string) list. Inr ''{}'')
        (snd (insert_detection (\<lambda>m :: (string \<times> string) list. Inr ''{}'') 12 ''p1'' ''refusal_bias'' 1 None
          (snd (insert_response_pair 11 ''p1'' ''I cannot help'' ''Sure'' ''hh-rlhf'' (snd (init_db 10 empty_db))))))
   \<and> (\<exists>d. detections
        (snd (insert_detection (\<lambda>m :: (string \<times> string) list. Inr ''{}'') 12 ''p1'' ''refusal_bias'' 1 None
          (snd (insert_response_pair 11 ''p1'' ''I cannot help'' ''Sure'' ''hh-rlhf'' (snd (init_db 10 empty_db))))))
          = Some [d] \<and> 0 \<le> severity d \<and> severity d \<le> 1)"
proof -
  let ?dumps = "\<lambda>m :: (string \<times> string) list. (Inr ''{}'' :: error + string)"
  let ?db = "snd (insert_detection ?dumps 12 ''p1'' ''refusal_bias'' 1 None
          (snd (insert_response_pair 11 ''p1'' ''I cannot help'' ''Sure'' ''hh-rlhf'' (snd (init_db 10 empty_db)))))"
  have r: "reachable ?dumps ?db"
    by (intro reachable.intros)
  have d: "\<exists>d. detections ?db = Some [d]"
    by (simp add: stored_example)
  from insert_detection_severity_range [where sev = "3/2" and dumps = ?dumps and now = 12 and pid = "''p1''"
         and sig = "''refusal_bias''" and md = None and db = "snd (init_db 10 empty_db)" and db' = ?db]
       insert_detection_severity_range [where sev = 1 and dumps = ?dumps and now = 12 and pid = "''p1''"
         and sig = "''refusal_bias''" and md = None and db = "snd (init_db 10 empty_db)" and db' = ?db]
       r d
  show ?thesis by fastforce
qed




text \<open>
  C10. \<open>insert_detection\<close> with the empty dict as metadata does exactly what it does
  with the metadata omitted. Whenever a call succeeds it appends one row to
  \<open>detections\<close>, and the \<open>metadata\<close> column of that row is NULL when the metadata
  was omitted or empty and the serialised dict when it was non-empty.
\<close>

theorem insert_detection_empty_metadata:
  "insert_detection dumps now pid sig sev (Some []) db = insert_detection dumps now pid sig sev None db
   \<and> (insert_detection dumps now pid sig sev md db = (Inr i, db') \<longrightarrow>
        (\<exists>rows d. detections db = Some rows \<and> detections db' = Some (rows @ [d])
           \<and> detection_id d = i \<and> d_pair_id d = pid \<and> signal_type d = sig \<and> severity d = sev
           \<and> (md = None \<or> md = Some [] \<longrightarrow> metadata d = None)
           \<and> (\<forall>m. md = Some m \<and> m \<noteq> [] \<longrightarrow> (\<exists>j. dumps m = Inr j \<and> metadata d = Some j))))"
proof -
  have same: "insert_detection dumps now pid sig sev (Some []) db
                = insert_detection dumps now pid sig sev None db"
    by (simp add: insert_detection_cases serialize_metadata_cases)
  have stored: "\<exists>rows d. detections db = Some rows \<and> detections db' = Some (rows @ [d])
           \<and> detection_id d = i \<and> d_pair_id d = pid \<and> signal_type d = sig \<and> severity d = sev
           \<and> (md = None \<or> md = Some [] \<longrightarrow> metadata d = None)
           \<and> (\<forall>m. md = Some m \<and> m \<noteq> [] \<longrightarrow> (\<exists>j. dumps m = Inr j \<and> metadata d = Some j))"
    if ok: "insert_detection dumps now pid sig sev md db = (Inr i, db')"
  proof (cases "serialize_metadata dumps md")
    case (Inl e)
    with ok show ?thesis by (simp add: insert_detection_cases split: if_splits)
  next
    case (Inr mj)
    note mj = serialize_metadata_Inr [OF Inr]
    from ok Inr obtain rows where rows: "detections db = Some rows"
      and db': "detections db' = Some (rows @
                 [\<lparr>detection_id = i, d_pair_id = pid, signal_type = sig, severity = sev,
                   metadata = mj, detected_at = now\<rparr>])"
      by (auto simp add: insert_detection_cases split: if_splits option.splits)
    let ?d = "\<lparr>detection_id = i, d_pair_id = pid, signal_type = sig, severity = sev,
                   metadata = mj, detected_at = now\<rparr>"
    from mj have "(md = None \<or> md = Some [] \<longrightarrow> metadata ?d = None)
           \<and> (\<forall>m. md = Some m \<and> m \<noteq> [] \<longrightarrow> (\<exists>j. dumps m = Inr j \<and> metadata ?d = Some j))"
      by simp
    with rows db' show ?thesis
      by (intro exI [of _ rows] exI [of _ ?d]) simp
  qed
  from same stored show ?thesis by blast
qed

theorem insert_detection_empty_metadata_witness:
  "(\<exists>d db'. insert_detection (\<lambda>m :: (string \<times> string) list. Inr ''{}'') 12 ''p1'' ''refusal_bias'' 1 (Some [])
     (snd (insert_response_pair 11 ''p1'' ''I cannot help'' ''Sure'' ''hh-rlhf'' (snd (init_db 10 empty_db))))
     = (Inr 1, db') \<and> detections db' = Some [d] \<and> metadata d = None)
   \<and> (\<exists>d db'. insert_detection (\<lambda>m :: (string \<times> string) list. Inr ''{}'') 12 ''p1'' ''refusal_bias'' 1
        (Some [(''reason'', ''refusal'')])
     (snd (insert_response_pair 11 ''p1'' ''I cannot help'' ''Sure'' ''hh-rlhf'' (snd (init_db 10 empty_db))))
     = (Inr 1, db') \<and> detections db' = Some [d] \<and> metadata d = Some ''{}'')"
proof -
  let ?dumps = "\<lambda>m :: (string \<times> string) list. (Inr ''{}'' :: error + string)"
  let ?db = "snd (insert_response_pair 11 ''p1'' ''I cannot help'' ''Sure'' ''hh-rlhf'' (snd (init_db 10 empty_db)))"
  have d0: "detections ?db = Some []"
    by (simp add: init_empty insert_response_pair_def sql_insert_response_pair_def conn_defs)
  obtain db1 where e1: "insert_detection ?dumps 12 ''p1'' ''refusal_bias'' 1 (Some []) ?db = (Inr 1, db1)"
    by (simp add: stored_example)
  obtain db2 where e2: "insert_detection ?dumps 12 ''p1'' ''refusal_bias'' 1 (Some [(''reason'', ''refusal'')]) ?db = (Inr 1, db2)"
    by (simp add: stored_example)
  from insert_detection_empty_metadata [where dumps = ?dumps and now = 12 and pid = "''p1''"
         and sig = "''refusal_bias''" and sev = 1 and db = ?db and md = "Some []" and i = 1 and db' = db1] e1 d0
  have "\<exists>d. detections db1 = Some [d] \<and> metadata d = None" by auto
  moreover
  from insert_detection_empty_metadata [where dumps = ?dumps and now = 12 and pid = "''p1''"
         and sig = "''refusal_bias''" and sev = 1 and db = ?db and md = "Some [(''reason'', ''refusal'')]"
         and i = 1 and db' = db2] e2 d0
  have "\<exists>d. detections db2 = Some [d] \<and> metadata d = Some ''{}''" by auto
  ultimately show ?thesis using e1 e2 by blast
qed

subsection \<open>Refusal bias\<close>

lemma contains_iff: "contains phrase t \<longleftrightarrow> (\<exists>u w. t = u @ phrase @ w)"
proof (induction t)
  case Nil
  then show ?case by auto
next
  case (Cons c t)
  show ?case
  proof
    assume "contains phrase (c # t)"
    then consider "prefix phrase (c # t)" | "contains phrase t" by auto
    then show "\<exists>u w. c # t = u @ phrase @ w"
    proof cases
      case 1
      then obtain w where "c # t = phrase @ w" by (auto simp add: prefix_def)
      then have "c # t = [] @ phrase @ w" by simp
      then show ?thesis by blast
    next
      case 2
      with Cons.IH obtain u w where "t = u @ phrase @ w" by blast
      then have "c # t = (c # u) @ phrase @ w" by simp
      then show ?thesis by blast
    qed
  next
    assume "\<exists>u w. c # t = u @ phrase @ w"
    then obtain u w where uw: "c # t = u @ phrase @ w" by blast
    show "contains phrase (c # t)"
    proof (cases u)
      case Nil
      with uw have "prefix phrase (c # t)" by (simp add: prefix_def)
      then show ?thesis by simp
    next
      case (Cons a u')
      with uw have "t = u' @ phrase @ w" by simp
      with Cons.IH have "contains phrase t" by blast
      then show ?thesis by simp
    qed
  qed
qed

lemma REFUSAL_PHRASES_lower: "\<forall>phrase \<in> set REFUSAL_PHRASES. lower phrase = phrase \<and> phrase \<noteq> []"
  by code_simp

lemma lower_append: "lower (u @ v) = lower u @ lower v"
  by (simp add: lower_def)

lemma lower_split: "lower t = a @ b \<Longrightarrow> \<exists>u v. t = u @ v \<and> lower u = a \<and> lower v = b"
  unfolding lower_def by (simp add: map_eq_append_conv) blast

lemma is_refusal_spec: "is_refusal text \<longleftrightarrow> spec_is_refusal text"
proof
  assume r: "is_refusal text"
  then have ne: "text \<noteq> []" by (auto simp add: is_refusal_def)
  with r obtain phrase where ph: "phrase \<in> set REFUSAL_PHRASES"
      and c: "contains phrase (lower text)"
    by (auto simp add: is_refusal_def list_ex_iff)
  from c obtain a b where ab: "lower text = a @ phrase @ b"
    by (auto simp add: contains_iff)
  from lower_split [OF ab] obtain u rest where t1: "text = u @ rest"
      and r2: "lower rest = phrase @ b"
    by blast
  from lower_split [OF r2] obtain v w where t2: "rest = v @ w" and v: "lower v = phrase"
    by blast
  from ph have "lower phrase = phrase" using REFUSAL_PHRASES_lower by blast
  with v t1 t2 have "text = u @ v @ w \<and> lower v = lower phrase" by simp
  with ph show "spec_is_refusal text" unfolding spec_is_refusal_def by blast
next
  assume "spec_is_refusal text"
  then obtain phrase u v w where ph: "phrase \<in> set REFUSAL_PHRASES"
      and t: "text = u @ v @ w" and v: "lower v = lower phrase"
    unfolding spec_is_refusal_def by blast
  from ph have lp: "lower phrase = phrase" and pne: "phrase \<noteq> []"
    using REFUSAL_PHRASES_lower by blast+
  from v lp pne have "v \<noteq> []" by (auto simp add: lower_def)
  with t have ne: "text \<noteq> []" by simp
  from t v lp have "lower text = lower u @ phrase @ lower w" by (simp add: lower_append)
  then have "contains phrase (lower text)" unfolding contains_iff by blast
  with ph ne show "is_refusal text" by (auto simp add: is_refusal_def list_ex_iff)
qed

lemma refusal_bias_loop_eq:
  "refusal_bias_loop rows results =
     results @ concat (map (\<lambda>row.
        if is_refusal (chosen row) \<and> \<not> is_refusal (rejected row)
        then [\<lparr>rb_row_id = row_id row, rb_signal = ''refusal_bias'',
               rb_reason = ''Model preferred a refusal over a valid response'',
               rb_flagged = True\<rparr>]
        else []) rows)"
  by (induction rows arbitrary: results) (simp_all add: Let_def)

lemma if_singletonD: "(if P then [x] else []) = [x] \<Longrightarrow> P"
  by (simp split: if_splits)

text \<open>
  C8. \<open>RefusalBiasSignal.analyze\<close> emits a finding for a row exactly when \<open>chosen\<close>
  contains a phrase of the refusal lexicon as a case-insensitive substring and
  \<open>rejected\<close> contains none, one finding per such row and in the order of the rows;
  so a row whose \<open>rejected\<close> is a refusal, or with no refusal at all, gets none.
  The empty text is never a refusal.
\<close>

theorem refusal_bias_flags:
  "RefusalBiasSignal_analyze rows =
     concat (map (\<lambda>row.
        if spec_is_refusal (chosen row) \<and> \<not> spec_is_refusal (rejected row)
        then [\<lparr>rb_row_id = row_id row, rb_signal = ''refusal_bias'',
               rb_reason = ''Model preferred a refusal over a valid response'',
               rb_flagged = True\<rparr>]
        else []) rows)
   \<and> \<not> spec_is_refusal [] \<and> \<not> is_refusal []"
proof -
  have "\<not> is_refusal []" by (simp add: is_refusal_def)
  then show ?thesis
    by (simp add: RefusalBiasSignal_analyze_def refusal_bias_loop_eq is_refusal_spec)
qed

theorem refusal_bias_flags_witness:
  "spec_is_refusal ''I cannot help with that.'' \<and> \<not> spec_is_refusal ''Here is how...''
   \<and> RefusalBiasSignal_analyze
       [\<lparr>prompt = ''q'', chosen = ''I cannot help with that.'', rejected = ''Here is how...'',
         row_id = ''r1''\<rparr>]
     = [\<lparr>rb_row_id = ''r1'', rb_signal = ''refusal_bias'',
         rb_reason = ''Model preferred a refusal over a valid response'', rb_flagged = True\<rparr>]"
proof -
  let ?row = "\<lparr>prompt = ''q'', chosen = ''I cannot help with that.'', rejected = ''Here is how...'',
         row_id = ''r1''\<rparr>"
  let ?f = "\<lparr>rb_row_id = ''r1'', rb_signal = ''refusal_bias'',
         rb_reason = ''Model preferred a refusal over a valid response'', rb_flagged = True\<rparr>"
  have run: "RefusalBiasSignal_analyze [?row] = [?f]"
    by code_simp
  have "RefusalBiasSignal_analyze [?row] =
          (if spec_is_refusal (chosen ?row) \<and> \<not> spec_is_refusal (rejected ?row)
           then [\<lparr>rb_row_id = row_id ?row, rb_signal = ''refusal_bias'',
               rb_reason = ''Model preferred a refusal over a valid response'',
               rb_flagged = True\<rparr>] else [])"
    using refusal_bias_flags [of "[?row]"] by (simp only: list.map concat.simps append_Nil2)
  then have "(if spec_is_refusal ''I cannot help with that.'' \<and> \<not> spec_is_refusal ''Here is how...''
           then [?f] else []) = [?f]"
    unfolding run by (simp only: PreferenceRow.simps)
  from if_singletonD [OF this] run show ?thesis by blast
qed

subsection \<open>Length ratio\<close>

lemma fl_4: "fl 4 = 4"
  using fl_eqI [of 2 4 "2 ^ 52"] by (simp add: pow2_def)

lemma ratio_out_of_bounds_pos:
  "0 < ratio \<Longrightarrow>
     ratio_out_of_bounds ratio max_ratio = Inr (ratio > max_ratio \<or> ratio < fl (1 / max_ratio))"
  by (auto simp add: ratio_out_of_bounds_def)

lemma length_ratio_pos:
  "length (c :: string) \<noteq> 0 \<Longrightarrow> length (r :: string) \<noteq> 0 \<Longrightarrow>
     0 < fl (real (length c) / real (length r))"
  by (rule fl_pos_bounds(1)) simp

lemma length_ratio_loop_eq:
  "length_ratio_loop max_ratio rows results =
     Inr (results @ concat (map (\<lambda>row.
        if length (chosen row) = 0 \<or> length (rejected row) = 0
        then [\<lparr>lr_row_id = row_id row, lr_ratio = None, lr_flagged = True\<rparr>]
        else if fl (real (length (chosen row)) / real (length (rejected row))) > max_ratio
                \<or> fl (real (length (chosen row)) / real (length (rejected row))) < fl (1 / max_ratio)
        then [\<lparr>lr_row_id = row_id row,
               lr_ratio = Some (fl (real (length (chosen row)) / real (length (rejected row)))),
               lr_flagged = True\<rparr>]
        else []) rows))"
proof (induction rows arbitrary: results)
  case Nil
  show ?case by simp
next
  case (Cons row rows)
  show ?case
  proof (cases "length (chosen row) = 0 \<or> length (rejected row) = 0")
    case True
    then show ?thesis using Cons.IH by auto
  next
    case False
    then have "0 < fl (real (length (chosen row)) / real (length (rejected row)))"
      by (simp add: length_ratio_pos)
    from ratio_out_of_bounds_pos [OF this, of max_ratio] False show ?thesis
      using Cons.IH by (simp add: Let_def)
  qed
qed

lemma equal_length_not_flagged:
  assumes "1 \<le> max_ratio" and "length (chosen r) = length (rejected r)"
      and "length (chosen r) \<noteq> 0"
  shows "LengthRatioSignal_analyze max_ratio [r] = Inr []"
proof -
  have one: "fl (real (length (chosen r)) / real (length (rejected r))) = 1"
    using assms(2,3) by (simp add: fl_1)
  have "0 < 1 / max_ratio" and "1 / max_ratio \<le> 1" using assms(1) by simp_all
  then have inv: "fl (1 / max_ratio) \<le> 1" by (rule fl_pos_bounds(2))
  have ne: "chosen r \<noteq> []" "rejected r \<noteq> []" using assms(2,3) by auto
  from assms(1) one inv ne show ?thesis
    by (simp add: LengthRatioSignal_analyze_def length_ratio_loop_eq del: length_ratio_loop.simps)
qed

text \<open>
  C7, as the claim states it, fails: it says that rows with responses of equal length
  are never flagged. With \<open>max_ratio = 0.5\<close> the row with \<open>chosen = "ab"\<close> and
  \<open>rejected = "cd"\<close> has ratio 1, which is above \<open>max_ratio\<close>, and is flagged; and at
  the default \<open>max_ratio = 3.0\<close> a row whose two responses are both empty, so of equal
  length, is flagged with the null ratio.
\<close>

theorem length_ratio_flags_counterexample:
  "length (chosen \<lparr>prompt = ''q'', chosen = ''ab'', rejected = ''cd'', row_id = ''r1''\<rparr>)
     = length (rejected \<lparr>prompt = ''q'', chosen = ''ab'', rejected = ''cd'', row_id = ''r1''\<rparr>)
   \<and> LengthRatioSignal_analyze (1 / 2)
         [\<lparr>prompt = ''q'', chosen = ''ab'', rejected = ''cd'', row_id = ''r1''\<rparr>]
       = Inr [\<lparr>lr_row_id = ''r1'', lr_ratio = Some 1, lr_flagged = True\<rparr>]
   \<and> LengthRatioSignal_analyze default_max_ratio
         [\<lparr>prompt = ''q'', chosen = [], rejected = [], row_id = ''r2''\<rparr>]
       = Inr [\<lparr>lr_row_id = ''r2'', lr_ratio = None, lr_flagged = True\<rparr>]"
  by (simp add: LengthRatioSignal_analyze_def ratio_out_of_bounds_def fl_1)

text \<open>
  C7, amended. For every \<open>max_ratio\<close> and every row: when \<open>chosen\<close> or \<open>rejected\<close> has
  length zero the row is flagged with the ratio reported as null; otherwise, with
  \<open>ratio = len(chosen) / len(rejected)\<close> and \<open>1/max_ratio\<close> the doubles that the two
  divisions return, the detector emits exactly one finding for the row if
  \<open>ratio > max_ratio\<close> or \<open>ratio < 1/max_ratio\<close> and no finding if not; the findings
  come in the order of the rows and the call never raises. Rows with non-empty
  responses of equal length are never flagged when \<open>max_ratio\<close> is at least 1, which
  is what the configuration admits, in particular at the default 3.0.
\<close>

theorem length_ratio_flags:
  "LengthRatioSignal_analyze max_ratio rows =
     Inr (concat (map (\<lambda>row.
        if length (chosen row) = 0 \<or> length (rejected row) = 0
        then [\<lparr>lr_row_id = row_id row, lr_ratio = None, lr_flagged = True\<rparr>]
        else if fl (real (length (chosen row)) / real (length (rejected row))) > max_ratio
                \<or> fl (real (length (chosen row)) / real (length (rejected row))) < fl (1 / max_ratio)
        then [\<lparr>lr_row_id = row_id row,
               lr_ratio = Some (fl (real (length (chosen row)) / real (length (rejected row)))),
               lr_flagged = True\<rparr>]
        else []) rows))
   \<and> (1 \<le> max_ratio \<and> length (chosen r) = length (rejected r) \<and> length (chosen r) \<noteq> 0 \<longrightarrow>
        LengthRatioSignal_analyze max_ratio [r] = Inr [])
   \<and> (length (chosen r) = length (rejected r) \<and> length (chosen r) \<noteq> 0 \<longrightarrow>
        LengthRatioSignal_analyze default_max_ratio [r] = Inr [])"
proof -
  have d: "1 \<le> default_max_ratio" by (simp add: default_max_ratio_def)
  have all: "LengthRatioSignal_analyze max_ratio rows =
     Inr (concat (map (\<lambda>row.
        if length (chosen row) = 0 \<or> length (rejected row) = 0
        then [\<lparr>lr_row_id = row_id row, lr_ratio = None, lr_flagged = True\<rparr>]
        else if fl (real (length (chosen row)) / real (length (rejected row))) > max_ratio
                \<or> fl (real (length (chosen row)) / real (length (rejected row))) < fl (1 / max_ratio)
        then [\<lparr>lr_row_id = row_id row,
               lr_ratio = Some (fl (real (length (chosen row)) / real (length (rejected row)))),
               lr_flagged = True\<rparr>]
        else []) rows))"
    by (simp add: LengthRatioSignal_analyze_def length_ratio_loop_eq del: length_ratio_loop.simps)
  from all equal_length_not_flagged [of max_ratio r] equal_length_not_flagged [OF d, of r]
  show ?thesis by blast
qed

theorem length_ratio_flags_witness:
  "LengthRatioSignal_analyze 3
         [\<lparr>prompt = ''q'', chosen = ''ab'', rejected = ''cd'', row_id = ''r1''\<rparr>] = Inr []
   \<and> LengthRatioSignal_analyze 3
         [\<lparr>prompt = ''q'', chosen = ''abcdefgh'', rejected = ''cd'', row_id = ''r2''\<rparr>,
          \<lparr>prompt = ''q'', chosen = ''abc'', rejected = [], row_id = ''r3''\<rparr>]
       = Inr [\<lparr>lr_row_id = ''r2'', lr_ratio = Some 4, lr_flagged = True\<rparr>,
              \<lparr>lr_row_id = ''r3'', lr_ratio = None, lr_flagged = True\<rparr>]"
proof -
  let ?r1 = "\<lparr>prompt = ''q'', chosen = ''ab'', rejected = ''cd'', row_id = ''r1''\<rparr>"
  let ?rows = "[\<lparr>prompt = ''q'', chosen = ''abcdefgh'', rejected = ''cd'', row_id = ''r2''\<rparr>,
          \<lparr>prompt = ''q'', chosen = ''abc'', rejected = [], row_id = ''r3''\<rparr>]"
  have h: "(1 :: real) \<le> 3 \<and> length (chosen ?r1) = length (rejected ?r1) \<and> length (chosen ?r1) \<noteq> 0"
    by simp
  with length_ratio_flags [of 3 ?rows ?r1]
  have a: "LengthRatioSignal_analyze 3 [?r1] = Inr []" by blast
  from length_ratio_flags [of 3 ?rows ?r1]
  have b: "LengthRatioSignal_analyze 3 ?rows
       = Inr [\<lparr>lr_row_id = ''r2'', lr_ratio = Some 4, lr_flagged = True\<rparr>,
              \<lparr>lr_row_id = ''r3'', lr_ratio = None, lr_flagged = True\<rparr>]"
    by (simp add: fl_4 fl_values)
  from a b show ?thesis by blast
qed

subsection \<open>Semantic duplicates\<close>













subsection \<open>Repetition\<close>

text \<open>
  C5 asks for a finding exactly where a word is repeated at least \<open>min_repeats\<close> times.
  The code does not do that: \<open>analyze\<close> never reads \<open>min_repeats\<close>, so its findings
  are those of the default configuration whatever the minimum is, and the pattern asks
  for three occurrences. With \<open>min_repeats = 2\<close> the text \<open>go go\<close> gets no finding,
  and with \<open>min_repeats = 4\<close> the text \<open>Go go GO\<close> gets one.
\<close>

theorem repetition_ignores_min_repeats:
  "RepetitionSignal_analyze (RepetitionSignal_init m) rows
     = RepetitionSignal_analyze (RepetitionSignal_init default_min_repeats) rows
   \<and> RepetitionSignal_analyze (RepetitionSignal_init 2)
       [\<lparr>prompt = ''q'', chosen = ''go go'', rejected = ''fine'', row_id = ''r1''\<rparr>] = []
   \<and> RepetitionSignal_analyze (RepetitionSignal_init 4)
       [\<lparr>prompt = ''q'', chosen = ''Go go GO'', rejected = ''fine'', row_id = ''r1''\<rparr>]
     = [\<lparr>rp_row_id = ''r1'', rp_field = ''chosen'', matched_pattern = [''go''],
         rp_flagged = True\<rparr>]"
proof -
  have "RepetitionSignal_analyze (RepetitionSignal_init m) rows
     = RepetitionSignal_analyze (RepetitionSignal_init default_min_repeats) rows"
    by (simp add: RepetitionSignal_analyze_def)
  moreover have "RepetitionSignal_analyze (RepetitionSignal_init 2)
       [\<lparr>prompt = ''q'', chosen = ''go go'', rejected = ''fine'', row_id = ''r1''\<rparr>] = []"
    by code_simp
  moreover have "RepetitionSignal_analyze (RepetitionSignal_init 4)
       [\<lparr>prompt = ''q'', chosen = ''Go go GO'', rejected = ''fine'', row_id = ''r1''\<rparr>]
     = [\<lparr>rp_row_id = ''r1'', rp_field = ''chosen'', matched_pattern = [''go''],
         rp_flagged = True\<rparr>]"
    by code_simp
  ultimately show ?thesis by blast
qed

end
